theory Spec2Isabelle
  imports Complex_Main "HOL-Library.Sublist"
begin

section \<open>Python values and exceptions\<close>

text \<open>
  The exceptions that the modelled functions can raise. A function that may raise returns
  \<open>error + 'a\<close>, with \<open>Inl\<close> carrying the exception.
\<close>

datatype error = StatisticsError | ValueError | TypeError | AttributeError | OverflowError

text \<open>
  A Python float is modelled by its exact rational value, with the two infinities and
  not-a-number apart (\<open>Infinity True\<close> is the negative one). The rounding of a double to
  53 bits is outside the model; the end of its range is inside: a magnitude of
  \<open>2^1024 - 2^970\<close> or more rounds beyond the largest double, so such a value is an
  infinity when it is read from text, and OverflowError when it is converted from an
  integer or is the quotient of two integers. Strings are lists of 8-bit characters, and
  the case mappings, the digits and the white space below are the ASCII ones.
\<close>

datatype pyfloat = Finite rat | Infinity bool | NaN

definition DBL_OVERFLOW :: int where
  "DBL_OVERFLOW = 2 ^ 1024 - 2 ^ 970"

definition to_double :: "rat \<Rightarrow> pyfloat" where
  "to_double x = (if DBL_OVERFLOW \<le> \<lfloor>\<bar>x\<bar>\<rfloor> then Infinity (x < 0) else Finite x)"

text \<open>\<open>a / n\<close> on integers, for a positive \<open>n\<close>: the true division.\<close>

definition true_div :: "int \<Rightarrow> nat \<Rightarrow> error + rat" where
  "true_div a n =
     (let x = of_int a / of_nat n in
      if DBL_OVERFLOW \<le> \<lfloor>\<bar>x\<bar>\<rfloor> then Inl OverflowError else Inr x)"

text \<open>The results of a list of computations, or the first exception among them.\<close>

fun sequence :: "(error + 'a) list \<Rightarrow> error + 'a list" where
  "sequence [] = Inr []"
| "sequence (m # ms) =
     (case m of
        Inl e \<Rightarrow> Inl e
      | Inr x \<Rightarrow> (case sequence ms of Inl e \<Rightarrow> Inl e | Inr xs \<Rightarrow> Inr (x # xs)))"

text \<open>What a JSON document or a CSV row can hold in a field.\<close>

datatype pyval =
    PNone
  | PBool bool
  | PInt int
  | PFloat pyfloat
  | PStr string
  | PList "pyval list"
  | PDict "(string \<times> pyval) list"

text \<open>
  The canonical record built by \<open>normalize\<close> and read by \<open>score\<close>: the dictionary with
  the keys hash, from, to, method, token, value and time.
\<close>

record tx =
  tx_hash :: pyval
  tx_from :: string
  tx_to :: string
  tx_method :: string
  tx_token :: string
  tx_value :: pyfloat
  tx_time :: int

section \<open>Strings\<close>

text \<open>\<open>str.lower\<close> and \<open>str.upper\<close>, on the ASCII letters.\<close>

definition lower_char :: "char \<Rightarrow> char" where
  "lower_char c =
     (case map_of (zip ''ABCDEFGHIJKLMNOPQRSTUVWXYZ'' ''abcdefghijklmnopqrstuvwxyz'') c of
        None \<Rightarrow> c
      | Some d \<Rightarrow> d)"

definition upper_char :: "char \<Rightarrow> char" where
  "upper_char c =
     (case map_of (zip ''abcdefghijklmnopqrstuvwxyz'' ''ABCDEFGHIJKLMNOPQRSTUVWXYZ'') c of
        None \<Rightarrow> c
      | Some d \<Rightarrow> d)"

definition lower :: "string \<Rightarrow> string" where
  "lower s = map lower_char s"

definition upper :: "string \<Rightarrow> string" where
  "upper s = map upper_char s"

text \<open>The test \<open>sub in s\<close> on strings: \<open>sub\<close> occurs in \<open>s\<close> as a contiguous run.\<close>

fun str_contains :: "string \<Rightarrow> string \<Rightarrow> bool" where
  "str_contains sub [] = (sub = [])"
| "str_contains sub (c # cs) = (prefix sub (c # cs) \<or> str_contains sub cs)"

text \<open>The decimal text of a count, as an f-string prints it.\<close>

fun str_nat :: "nat \<Rightarrow> string" where
  "str_nat n =
     (if n < 10 then [''0123456789'' ! n]
      else str_nat (n div 10) @ [''0123456789'' ! (n mod 10)])"

declare str_nat.simps [simp del]

section \<open>The quartiles of the standard library\<close>

text \<open>
  \<open>statistics.quantiles(data, n=n)\<close> with the default method, exclusive, as in
  CPython 3.8 to 3.12: fewer than two data points raise StatisticsError. (From 3.13 on a
  single data point is accepted.) The cut points are computed in order, each by a true
  division.
\<close>

definition quantiles :: "int list \<Rightarrow> nat \<Rightarrow> error + rat list" where
  "quantiles data0 n =
     (if n < 1 then Inl StatisticsError
      else
        let data = sort data0; ld = length data in
        if ld < 2 then Inl StatisticsError
        else
          let m = ld + 1 in
          sequence (map (\<lambda>i.
                 let j = i * m div n;
                     j = (if j < 1 then 1 else if j > ld - 1 then ld - 1 else j);
                     delta = int (i * m) - int (j * n)
                 in true_div (data ! (j - 1) * (int n - delta) + data ! j * delta) n)
               [1..<n]))"

section \<open>The wallet risk scorer\<close>

definition SUS_METHODS :: "string set" where
  "SUS_METHODS = {''permit'', ''increaseallowance'', ''setapprovalforall'', ''permit2''}"

definition MIXERS :: "string set" where
  "MIXERS = {''0x5ace...'', ''0x1111...''}"

definition PHISHING_TOKENS :: "string set" where
  "PHISHING_TOKENS = {''FAKE'', ''SCAM''}"

text \<open>
  The scorer threads the pair of \<open>points\<close> and \<open>flags\<close> through six heuristics; each is
  a function on that pair.
\<close>

type_synonym acc = "rat \<times> string list"

text \<open>1) Mixer proximity.\<close>

definition from_mixers :: "tx list \<Rightarrow> string \<Rightarrow> tx list" where
  "from_mixers rows addr = filter (\<lambda>r. tx_from r \<in> MIXERS \<and> tx_to r = addr) rows"

definition mixer_step :: "tx list \<Rightarrow> string \<Rightarrow> acc \<Rightarrow> acc" where
  "mixer_step rows addr st =
     (case st of (points, flags) \<Rightarrow>
        if from_mixers rows addr \<noteq> []
        then (points + 35,
              flags @ [''received from known mixer: '' @ str_nat (length (from_mixers rows addr))
                       @ '' txs''])
        else (points, flags))"

text \<open>2) Sensitive methods.\<close>

definition approvals :: "tx list \<Rightarrow> string \<Rightarrow> nat" where
  "approvals rows addr =
     length (filter (\<lambda>r. tx_from r = addr \<and> (\<exists>m \<in> SUS_METHODS. str_contains m (tx_method r))) rows)"

definition approvals_step :: "tx list \<Rightarrow> string \<Rightarrow> acc \<Rightarrow> acc" where
  "approvals_step rows addr st =
     (case st of (points, flags) \<Rightarrow>
        if approvals rows addr > 0
        then (points + of_nat (min 25 (approvals rows addr * 5)),
              flags @ [''sensitive approvals: '' @ str_nat (approvals rows addr)])
        else (points, flags))"

text \<open>3) Burst activity. This is the step that can raise.\<close>

definition gaps :: "tx list \<Rightarrow> int list" where
  "gaps rows = map (\<lambda>i. tx_time (rows ! (i + 1)) - tx_time (rows ! i)) [0..<length rows - 1]"

definition bursts :: "int list \<Rightarrow> rat \<Rightarrow> nat" where
  "bursts gs q1 = length (filter (\<lambda>g. of_int g \<le> max 10 (q1 / 5)) gs)"

definition burst_step :: "tx list \<Rightarrow> acc \<Rightarrow> error + acc" where
  "burst_step rows st =
     (case st of (points, flags) \<Rightarrow>
        if gaps rows \<noteq> [] then
          (case quantiles (gaps rows) 4 of
             Inl e \<Rightarrow> Inl e
           | Inr qs \<Rightarrow>
               let q1 = hd qs in
               if bursts (gaps rows) q1 \<ge> 3
               then Inr (points + 10,
                         flags @ [''bot-like bursts: '' @ str_nat (bursts (gaps rows) q1)])
               else Inr (points, flags))
        else Inr (points, flags))"

text \<open>4) Suspicious tokens.\<close>

definition bad_tokens :: "tx list \<Rightarrow> string \<Rightarrow> tx list" where
  "bad_tokens rows addr = filter (\<lambda>r. tx_token r \<in> PHISHING_TOKENS \<and> tx_to r = addr) rows"

definition tokens_step :: "tx list \<Rightarrow> string \<Rightarrow> acc \<Rightarrow> acc" where
  "tokens_step rows addr st =
     (case st of (points, flags) \<Rightarrow>
        if bad_tokens rows addr \<noteq> []
        then (points + 10,
              flags @ [''received suspicious tokens: '' @ str_nat (length (bad_tokens rows addr))])
        else (points, flags))"

text \<open>
  5) Wash patterns. A \<open>Counter\<close> is a dictionary, so its items come in the order in
  which the keys were first inserted: it is an association list here.
\<close>

fun counter_incr :: "'k \<Rightarrow> ('k \<times> nat) list \<Rightarrow> ('k \<times> nat) list" where
  "counter_incr k [] = [(k, 1)]"
| "counter_incr k ((k', c) # kcs) =
     (if k = k' then (k', c + 1) # kcs else (k', c) # counter_incr k kcs)"

definition Counter :: "'k list \<Rightarrow> ('k \<times> nat) list" where
  "Counter ks = foldl (\<lambda>m k. counter_incr k m) [] ks"

definition counter_get :: "('k \<times> nat) list \<Rightarrow> 'k \<Rightarrow> nat" where
  "counter_get m k = (case map_of m k of None \<Rightarrow> 0 | Some c \<Rightarrow> c)"

definition pair_counts :: "tx list \<Rightarrow> ((string \<times> string) \<times> nat) list" where
  "pair_counts rows = Counter (map (\<lambda>r. (tx_from r, tx_to r)) rows)"

definition wash_flag :: "string \<Rightarrow> string \<Rightarrow> string" where
  "wash_flag a b = ''wash-like transfers between '' @ a @ '' and '' @ b"

fun wash_loop ::
  "string \<Rightarrow> ((string \<times> string) \<times> nat) list \<Rightarrow> ((string \<times> string) \<times> nat) list \<Rightarrow> acc \<Rightarrow> acc"
where
  "wash_loop addr pc [] st = st"
| "wash_loop addr pc (((a, b), c) # items) st =
     (if a = addr \<or> b = addr then
        (let rev = counter_get pc (b, a) in
         if c \<ge> 3 \<and> rev \<ge> 3
         then (fst st + 15, snd st @ [wash_flag a b])
         else wash_loop addr pc items st)
      else wash_loop addr pc items st)"

definition wash_step :: "tx list \<Rightarrow> string \<Rightarrow> acc \<Rightarrow> acc" where
  "wash_step rows addr st = wash_loop addr (pair_counts rows) (pair_counts rows) st"

text \<open>6) Cold wallet.\<close>

definition recent :: "tx list \<Rightarrow> tx list" where
  "recent rows = filter (\<lambda>r. tx_time (last rows) - tx_time r < 30 * 24 * 3600) rows"

definition cold_flag :: string where
  "cold_flag = ''no recent activity (cold wallet)''"

definition cold_step :: "tx list \<Rightarrow> acc \<Rightarrow> acc" where
  "cold_step rows st =
     (case st of (points, flags) \<Rightarrow>
        if recent rows = [] then (max 0 (points - 10), flags @ [cold_flag])
        else (points, flags))"

text \<open>
  \<open>round(x, 2)\<close>: to the nearest multiple of one hundredth, a tie going to the even one.
\<close>

definition round_half_even :: "rat \<Rightarrow> int" where
  "round_half_even x =
     (let f = \<lfloor>x\<rfloor>; d = x - of_int f in
      if d < 1 / 2 then f else if d > 1 / 2 then f + 1 else if even f then f else f + 1)"

definition round2 :: "rat \<Rightarrow> rat" where
  "round2 x = of_int (round_half_even (x * 100)) / 100"

text \<open>
  The six heuristics in the order of the source, on the lower-cased address and a
  non-empty list: the value of \<open>points\<close> and \<open>flags\<close> before the final clamp.
\<close>

definition heuristics :: "tx list \<Rightarrow> string \<Rightarrow> error + acc" where
  "heuristics rows addr =
     (case burst_step rows (approvals_step rows addr (mixer_step rows addr (0, []))) of
        Inl e \<Rightarrow> Inl e
      | Inr st \<Rightarrow> Inr (cold_step rows (wash_step rows addr (tokens_step rows addr st))))"

definition score :: "tx list \<Rightarrow> string \<Rightarrow> error + (rat \<times> string list)" where
  "score rows addr0 =
     (let addr = lower addr0 in
      if rows = [] then Inr (10, [''no history''])
      else
        (case heuristics rows addr of
           Inl e \<Rightarrow> Inl e
         | Inr (points, flags) \<Rightarrow> Inr (round2 (max 0 (min 100 points)), flags)))"

section \<open>What each heuristic contributes\<close>

text \<open>
  The contribution of each heuristic as the specification words it: a number of points
  and at most one flag, both functions of the records and the address alone. The
  theorems below show that the accumulator of \<open>score\<close> is their sum.
\<close>

definition mixer_points :: "tx list \<Rightarrow> string \<Rightarrow> nat" where
  "mixer_points rows addr = (if from_mixers rows addr = [] then 0 else 35)"

definition mixer_flags :: "tx list \<Rightarrow> string \<Rightarrow> string list" where
  "mixer_flags rows addr =
     (if from_mixers rows addr = [] then []
      else [''received from known mixer: '' @ str_nat (length (from_mixers rows addr)) @ '' txs''])"

definition approval_points :: "nat \<Rightarrow> nat" where
  "approval_points count = (if count > 0 then min 25 (count * 5) else 0)"

definition approval_flags :: "nat \<Rightarrow> string list" where
  "approval_flags count = (if count > 0 then [''sensitive approvals: '' @ str_nat count] else [])"

definition burst_count :: "tx list \<Rightarrow> nat" where
  "burst_count rows =
     (case quantiles (gaps rows) 4 of Inl e \<Rightarrow> 0 | Inr qs \<Rightarrow> bursts (gaps rows) (hd qs))"

definition burst_points :: "tx list \<Rightarrow> nat" where
  "burst_points rows = (if burst_count rows \<ge> 3 then 10 else 0)"

definition burst_flags :: "tx list \<Rightarrow> string list" where
  "burst_flags rows =
     (if burst_count rows \<ge> 3 then [''bot-like bursts: '' @ str_nat (burst_count rows)] else [])"

definition token_points :: "tx list \<Rightarrow> string \<Rightarrow> nat" where
  "token_points rows addr = (if bad_tokens rows addr = [] then 0 else 10)"

definition token_flags :: "tx list \<Rightarrow> string \<Rightarrow> string list" where
  "token_flags rows addr =
     (if bad_tokens rows addr = [] then []
      else [''received suspicious tokens: '' @ str_nat (length (bad_tokens rows addr))])"

text \<open>
  The number of records from \<open>a\<close> to \<open>b\<close>, and the pairs that the wash heuristic
  looks for: one end is the target address and both directions occur three times or more.
\<close>

definition pair_count :: "tx list \<Rightarrow> string \<Rightarrow> string \<Rightarrow> nat" where
  "pair_count rows a b = length (filter (\<lambda>r. tx_from r = a \<and> tx_to r = b) rows)"

definition wash_pair :: "tx list \<Rightarrow> string \<Rightarrow> string \<times> string \<Rightarrow> bool" where
  "wash_pair rows addr p =
     (case p of (a, b) \<Rightarrow>
        (a = addr \<or> b = addr) \<and> pair_count rows a b \<ge> 3 \<and> pair_count rows b a \<ge> 3)"

text \<open>The first such pair, in the order in which the records name the pairs.\<close>

definition first_wash_pair :: "tx list \<Rightarrow> string \<Rightarrow> (string \<times> string) option" where
  "first_wash_pair rows addr = find (wash_pair rows addr) (map (\<lambda>r. (tx_from r, tx_to r)) rows)"

definition wash_points :: "tx list \<Rightarrow> string \<Rightarrow> nat" where
  "wash_points rows addr = (case first_wash_pair rows addr of None \<Rightarrow> 0 | Some p \<Rightarrow> 15)"

definition wash_flags :: "tx list \<Rightarrow> string \<Rightarrow> string list" where
  "wash_flags rows addr =
     (case first_wash_pair rows addr of None \<Rightarrow> [] | Some (a, b) \<Rightarrow> [wash_flag a b])"

definition is_wash_flag :: "string \<Rightarrow> bool" where
  "is_wash_flag f = prefix ''wash-like transfers between '' f"

definition total_points :: "tx list \<Rightarrow> string \<Rightarrow> nat" where
  "total_points rows addr =
     mixer_points rows addr + approval_points (approvals rows addr) + burst_points rows
       + token_points rows addr + wash_points rows addr"

definition all_flags :: "tx list \<Rightarrow> string \<Rightarrow> string list" where
  "all_flags rows addr =
     mixer_flags rows addr @ approval_flags (approvals rows addr) @ burst_flags rows
       @ token_flags rows addr @ wash_flags rows addr"

text \<open>
  The hypothesis of the dormancy rule as the specification words it: the time of the
  latest record minus the time of every other record is at least 30 days.
\<close>

definition dormant :: "tx list \<Rightarrow> bool" where
  "dormant rows = list_all (\<lambda>r. tx_time (last rows) - tx_time r \<ge> 2592000) (butlast rows)"

section \<open>The source pattern scanner\<close>

record rule =
  rule_id :: string
  regex :: string
  weight :: int
  desc :: string

definition RULES :: "rule list" where
  "RULES =
     [\<lparr>rule_id = ''reentrancy'', regex = ''call.value'', weight = 30,
       desc = ''Potential reentrancy (call.value)''\<rparr>,
      \<lparr>rule_id = ''selfdestruct'', regex = ''selfdestruct'', weight = 40,
       desc = ''Contract selfdestruct''\<rparr>,
      \<lparr>rule_id = ''delegatecall'', regex = ''delegatecall'', weight = 25,
       desc = ''Delegatecall detected''\<rparr>]"

text \<open>
  \<open>re.search(pattern, code, re.IGNORECASE)\<close> for the patterns that \<open>RULES\<close> uses:
  a sequence of literal characters and dots. A literal character matches itself in
  either case, a dot matches any character but the newline, and the search tries every
  position of the text.
\<close>

fun match_here :: "string \<Rightarrow> string \<Rightarrow> bool" where
  "match_here [] s = True"
| "match_here (p # ps) [] = False"
| "match_here (p # ps) (c # cs) =
     ((if p = CHR ''.'' then c \<noteq> CHR 0x0A else lower_char p = lower_char c)
      \<and> match_here ps cs)"

fun re_search :: "string \<Rightarrow> string \<Rightarrow> bool" where
  "re_search pat [] = match_here pat []"
| "re_search pat (c # cs) = (match_here pat (c # cs) \<or> re_search pat cs)"

record report =
  risk :: int
  reasons :: "string list"

fun analyze_loop :: "rule list \<Rightarrow> string \<Rightarrow> report \<Rightarrow> report" where
  "analyze_loop [] code rep = rep"
| "analyze_loop (r # rs) code rep =
     (if re_search (regex r) code
      then analyze_loop rs code \<lparr>risk = risk rep + weight r, reasons = reasons rep @ [desc r]\<rparr>
      else analyze_loop rs code rep)"

definition analyze :: "string \<Rightarrow> report" where
  "analyze code = analyze_loop RULES code \<lparr>risk = 0, reasons = []\<rparr>"

section \<open>The transaction normalizer\<close>

subsection \<open>Truth values and \<open>or\<close>\<close>

text \<open>
  A raw record is a dictionary from field names to values; \<open>r.get(k)\<close> is \<open>None\<close> for a
  missing key.
\<close>

type_synonym raw = "string \<rightharpoonup> pyval"

definition get :: "raw \<Rightarrow> string \<Rightarrow> pyval" where
  "get r k = (case r k of None \<Rightarrow> PNone | Some v \<Rightarrow> v)"

fun truthy :: "pyval \<Rightarrow> bool" where
  "truthy PNone = False"
| "truthy (PBool b) = b"
| "truthy (PInt i) = (i \<noteq> 0)"
| "truthy (PFloat f) = (f \<noteq> Finite 0)"
| "truthy (PStr s) = (s \<noteq> [])"
| "truthy (PList xs) = (xs \<noteq> [])"
| "truthy (PDict kvs) = (kvs \<noteq> [])"

text \<open>\<open>a or b\<close>: the left operand when it is true, the right one otherwise.\<close>

definition py_or :: "pyval \<Rightarrow> pyval \<Rightarrow> pyval" where
  "py_or a b = (if truthy a then a else b)"

subsection \<open>Numbers from text\<close>

text \<open>
  The characters that \<open>int\<close> and \<open>float\<close> strip from both ends of a string, in the ASCII
  range: tab to carriage return, and the space.
\<close>

definition is_space :: "char \<Rightarrow> bool" where
  "is_space c = (c \<in> set [CHR 0x09, CHR 0x0A, CHR 0x0B, CHR 0x0C, CHR 0x0D, CHR 0x20])"

definition strip :: "string \<Rightarrow> string" where
  "strip s = rev (dropWhile is_space (rev (dropWhile is_space s)))"

definition digit_of :: "char \<Rightarrow> nat option" where
  "digit_of c = map_of (zip ''0123456789'' [0, 1, 2, 3, 4, 5, 6, 7, 8, 9]) c"

text \<open>
  A run of decimal digits in which single underscores may stand between two digits.
  \<open>digits_value\<close> reads what follows a digit: it returns the value so far and the number
  of digits read.
\<close>

fun digits_value :: "nat \<times> nat \<Rightarrow> string \<Rightarrow> (nat \<times> nat) option" where
  "digits_value acc [] = Some acc"
| "digits_value acc [c] =
     (case digit_of c of None \<Rightarrow> None | Some v \<Rightarrow> Some (fst acc * 10 + v, Suc (snd acc)))"
| "digits_value acc (c # d # ds) =
     (if c = CHR ''_''
      then (case digit_of d of
              None \<Rightarrow> None
            | Some v \<Rightarrow> digits_value (fst acc * 10 + v, Suc (snd acc)) ds)
      else (case digit_of c of
              None \<Rightarrow> None
            | Some v \<Rightarrow> digits_value (fst acc * 10 + v, Suc (snd acc)) (d # ds)))"

definition digitpart :: "string \<Rightarrow> (nat \<times> nat) option" where
  "digitpart s =
     (case s of
        [] \<Rightarrow> None
      | c # cs \<Rightarrow> (case digit_of c of None \<Rightarrow> None | Some v \<Rightarrow> digits_value (v, 1) cs))"

text \<open>An optional sign: whether it is a minus, and the rest.\<close>

definition take_sign :: "string \<Rightarrow> bool \<times> string" where
  "take_sign s =
     (case s of
        [] \<Rightarrow> (False, [])
      | c # cs \<Rightarrow> if c = CHR ''-'' then (True, cs) else if c = CHR ''+'' then (False, cs)
                  else (False, c # cs))"

text \<open>The text of a decimal integer, as \<open>int(s)\<close> reads it after stripping.\<close>

definition parse_int :: "string \<Rightarrow> int option" where
  "parse_int s =
     (case take_sign s of (neg, body) \<Rightarrow>
        (case digitpart body of
           None \<Rightarrow> None
         | Some (n, k) \<Rightarrow> Some (if neg then - int n else int n)))"

text \<open>The first position of a character with a property: what precedes it and what follows.\<close>

fun split_at :: "(char \<Rightarrow> bool) \<Rightarrow> string \<Rightarrow> string \<times> string option" where
  "split_at P [] = ([], None)"
| "split_at P (c # cs) =
     (if P c then ([], Some cs)
      else (case split_at P cs of (before, after) \<Rightarrow> (c # before, after)))"

text \<open>
  The mantissa of a decimal float: digits, a point, digits, with digits on at least one
  side of the point. The result is the value.
\<close>

definition parse_mantissa :: "string \<Rightarrow> rat option" where
  "parse_mantissa m =
     (case split_at (\<lambda>c. c = CHR ''.'') m of
        (ip, None) \<Rightarrow> (case digitpart ip of None \<Rightarrow> None | Some (n, k) \<Rightarrow> Some (of_nat n))
      | (ip, Some fp) \<Rightarrow>
          (if ip = [] then
             (case digitpart fp of None \<Rightarrow> None | Some (f, k) \<Rightarrow> Some (of_nat f / 10 ^ k))
           else
             (case digitpart ip of
                None \<Rightarrow> None
              | Some (n, k') \<Rightarrow>
                  (if fp = [] then Some (of_nat n)
                   else (case digitpart fp of
                           None \<Rightarrow> None
                         | Some (f, k) \<Rightarrow> Some (of_nat n + of_nat f / 10 ^ k))))))"

definition parse_exponent :: "string option \<Rightarrow> int option" where
  "parse_exponent ex =
     (case ex of
        None \<Rightarrow> Some 0
      | Some e \<Rightarrow>
          (case take_sign e of (neg, body) \<Rightarrow>
             (case digitpart body of
                None \<Rightarrow> None
              | Some (n, k) \<Rightarrow> Some (if neg then - int n else int n))))"

text \<open>
  The text of a float, as \<open>float(s)\<close> reads it after stripping: a sign, then
  \<open>inf\<close>, \<open>infinity\<close> or \<open>nan\<close> in any case, or a mantissa and an optional exponent.
\<close>

definition parse_float :: "string \<Rightarrow> pyfloat option" where
  "parse_float s =
     (case take_sign s of (neg, body) \<Rightarrow>
        if lower body = ''inf'' \<or> lower body = ''infinity'' then Some (Infinity neg)
        else if lower body = ''nan'' then Some NaN
        else
          (case split_at (\<lambda>c. c = CHR ''e'' \<or> c = CHR ''E'') body of (m, ex) \<Rightarrow>
             (case parse_mantissa m of
                None \<Rightarrow> None
              | Some v \<Rightarrow>
                  (case parse_exponent ex of
                     None \<Rightarrow> None
                   | Some e \<Rightarrow>
                       Some (to_double ((if neg then - v else v)
                               * (if e < 0 then 1 / 10 ^ nat (- e) else 10 ^ nat e)))))))"

subsection \<open>The conversions \<open>float(x)\<close> and \<open>int(x)\<close>\<close>

fun py_float :: "pyval \<Rightarrow> error + pyfloat" where
  "py_float PNone = Inl TypeError"
| "py_float (PBool b) = Inr (Finite (if b then 1 else 0))"
| "py_float (PInt i) = (if DBL_OVERFLOW \<le> \<bar>i\<bar> then Inl OverflowError else Inr (Finite (of_int i)))"
| "py_float (PFloat f) = Inr f"
| "py_float (PStr s) = (case parse_float (strip s) of None \<Rightarrow> Inl ValueError | Some f \<Rightarrow> Inr f)"
| "py_float (PList xs) = Inl TypeError"
| "py_float (PDict kvs) = Inl TypeError"

text \<open>\<open>int\<close> of a float truncates towards zero.\<close>

definition trunc :: "rat \<Rightarrow> int" where
  "trunc x = (if x < 0 then \<lceil>x\<rceil> else \<lfloor>x\<rfloor>)"

fun py_int :: "pyval \<Rightarrow> error + int" where
  "py_int PNone = Inl TypeError"
| "py_int (PBool b) = Inr (if b then 1 else 0)"
| "py_int (PInt i) = Inr i"
| "py_int (PFloat (Finite x)) = Inr (trunc x)"
| "py_int (PFloat (Infinity neg)) = Inl OverflowError"
| "py_int (PFloat NaN) = Inl ValueError"
| "py_int (PStr s) = (case parse_int (strip s) of None \<Rightarrow> Inl ValueError | Some i \<Rightarrow> Inr i)"
| "py_int (PList xs) = Inl TypeError"
| "py_int (PDict kvs) = Inl TypeError"

text \<open>\<open>to_int\<close>: the two attempts of the source, each exception caught.\<close>

definition to_int :: "pyval \<Rightarrow> int \<Rightarrow> int" where
  "to_int x dflt =
     (case py_int x of
        Inr i \<Rightarrow> i
      | Inl e \<Rightarrow>
          (case py_float x of
             Inl e' \<Rightarrow> dflt
           | Inr f \<Rightarrow> (case py_int (PFloat f) of Inr i \<Rightarrow> i | Inl e'' \<Rightarrow> dflt)))"

subsection \<open>\<open>normalize\<close>\<close>

text \<open>
  The methods \<open>.lower()\<close> and \<open>.upper()\<close> exist on strings only: on any other value the
  attribute lookup raises AttributeError.
\<close>

fun method_lower :: "pyval \<Rightarrow> error + string" where
  "method_lower (PStr s) = Inr (lower s)"
| "method_lower v = Inl AttributeError"

fun method_upper :: "pyval \<Rightarrow> error + string" where
  "method_upper (PStr s) = Inr (upper s)"
| "method_upper v = Inl AttributeError"

definition sum_bind :: "error + 'a \<Rightarrow> ('a \<Rightarrow> error + 'b) \<Rightarrow> error + 'b" where
  "sum_bind m f = (case m of Inl e \<Rightarrow> Inl e | Inr x \<Rightarrow> f x)"

text \<open>
  One record of the loop: the seven entries of the dictionary are evaluated in the order
  of the source, and the first exception ends the evaluation.
\<close>

definition normalize_row :: "raw \<Rightarrow> error + tx" where
  "normalize_row r =
     (let h = py_or (py_or (get r ''hash'') (get r ''txHash'')) (PStr '''') in
      sum_bind (method_lower (py_or (py_or (get r ''from'') (get r ''src'')) (PStr ''''))) (\<lambda>f.
      sum_bind (method_lower (py_or (py_or (get r ''to'') (get r ''dst'')) (PStr ''''))) (\<lambda>t.
      sum_bind (method_lower (py_or (py_or (get r ''method'') (get r ''functionName'')) (PStr '''')))
        (\<lambda>m.
      sum_bind (method_upper (py_or (py_or (get r ''tokenSymbol'') (get r ''symbol'')) (PStr '''')))
        (\<lambda>k.
      sum_bind (py_float (py_or (py_or (get r ''value'') (get r ''amount'')) (PInt 0))) (\<lambda>v.
      Inr \<lparr>tx_hash = h, tx_from = f, tx_to = t, tx_method = m, tx_token = k,
           tx_value = (if v \<noteq> Finite 0 then v else Finite 0),
           tx_time =
             to_int (py_or (py_or (py_or (get r ''timeStamp'') (get r ''timestamp''))
                              (get r ''time'')) (PInt 0)) 0\<rparr>))))))"

fun normalize_rows :: "raw list \<Rightarrow> error + tx list" where
  "normalize_rows [] = Inr []"
| "normalize_rows (r # rs) =
     sum_bind (normalize_row r) (\<lambda>x. sum_bind (normalize_rows rs) (\<lambda>xs. Inr (x # xs)))"

text \<open>
  The function \<open>normalize\<close> of the source (\<open>normalize\<close> alone names a constant of HOL).
  The list is sorted by time at the end; the sort of Python is stable, as \<open>sort_key\<close> is.
  The address is not used.
\<close>

definition normalize_txs :: "raw list \<Rightarrow> string \<Rightarrow> error + tx list" where
  "normalize_txs rows addr = sum_bind (normalize_rows rows) (\<lambda>out. Inr (sort_key tx_time out))"

subsection \<open>Two readings of the alias selection\<close>

text \<open>
  The selection of an alias as the specification words it: the first alias, in the
  listed priority, that is present in the record (a key that is missing and a key that
  holds \<open>None\<close> both count as absent), and the default when none is.
\<close>

definition first_present :: "raw \<Rightarrow> string list \<Rightarrow> pyval \<Rightarrow> pyval" where
  "first_present r ks dflt =
     (case filter (\<lambda>k. get r k \<noteq> PNone) ks of [] \<Rightarrow> dflt | k # ks' \<Rightarrow> get r k)"

text \<open>The first alias, in the listed priority, whose value is true, and the default when none is.\<close>

definition first_truthy :: "raw \<Rightarrow> string list \<Rightarrow> pyval \<Rightarrow> pyval" where
  "first_truthy r ks dflt =
     (case filter (\<lambda>k. truthy (get r k)) ks of [] \<Rightarrow> dflt | k # ks' \<Rightarrow> get r k)"

text \<open>
  The canonical record built from a selection \<open>sel\<close> of aliases: the coercions and
  their order are those of \<open>normalize_row\<close>, and \<open>sel\<close> is given the aliases of a field
  and its default.
\<close>

definition build_row :: "(string list \<Rightarrow> pyval \<Rightarrow> pyval) \<Rightarrow> error + tx" where
  "build_row sel =
     sum_bind (method_lower (sel [''from'', ''src''] (PStr ''''))) (\<lambda>f.
     sum_bind (method_lower (sel [''to'', ''dst''] (PStr ''''))) (\<lambda>t.
     sum_bind (method_lower (sel [''method'', ''functionName''] (PStr ''''))) (\<lambda>m.
     sum_bind (method_upper (sel [''tokenSymbol'', ''symbol''] (PStr ''''))) (\<lambda>k.
     sum_bind (py_float (sel [''value'', ''amount''] (PInt 0))) (\<lambda>v.
     Inr \<lparr>tx_hash = sel [''hash'', ''txHash''] (PStr ''''), tx_from = f, tx_to = t,
          tx_method = m, tx_token = k,
          tx_value = (if v \<noteq> Finite 0 then v else Finite 0),
          tx_time = to_int (sel [''timeStamp'', ''timestamp'', ''time''] (PInt 0)) 0\<rparr>)))))"

section \<open>Sample histories\<close>

text \<open>A record with the given sender, receiver, method and time, and nothing else.\<close>

definition transfer :: "string \<Rightarrow> string \<Rightarrow> string \<Rightarrow> int \<Rightarrow> tx" where
  "transfer a b m t =
     \<lparr>tx_hash = PStr '''', tx_from = a, tx_to = b, tx_method = m, tx_token = '''',
      tx_value = Finite 0, tx_time = t\<rparr>"

text \<open>
  Twelve transfers between the target \<open>0xaa\<close> and two partners, three in each direction
  with each, a day and more apart: both partners make wash pairs.
\<close>

definition wash_rows :: "tx list" where
  "wash_rows =
     [transfer ''0xaa'' ''0xbb'' ''transfer'' 0, transfer ''0xbb'' ''0xaa'' ''transfer'' 100000,
      transfer ''0xaa'' ''0xcc'' ''transfer'' 200000, transfer ''0xcc'' ''0xaa'' ''transfer'' 300000,
      transfer ''0xaa'' ''0xbb'' ''transfer'' 400000, transfer ''0xbb'' ''0xaa'' ''transfer'' 500000,
      transfer ''0xaa'' ''0xcc'' ''transfer'' 600000, transfer ''0xcc'' ''0xaa'' ''transfer'' 700000,
      transfer ''0xaa'' ''0xbb'' ''transfer'' 800000, transfer ''0xbb'' ''0xaa'' ''transfer'' 900000,
      transfer ''0xaa'' ''0xcc'' ''transfer'' 1000000, transfer ''0xcc'' ''0xaa'' ''transfer'' 1100000]"

text \<open>Six sensitive calls sent by the target.\<close>

definition permit_rows :: "tx list" where
  "permit_rows =
     [transfer ''0xaa'' ''0xbb'' ''permit'' 0, transfer ''0xaa'' ''0xbb'' ''permit2'' 100000,
      transfer ''0xaa'' ''0xbb'' ''permit(address,uint256)'' 200000,
      transfer ''0xaa'' ''0xbb'' ''selfpermit'' 300000,
      transfer ''0xaa'' ''0xbb'' ''permit'' 400000, transfer ''0xaa'' ''0xbb'' ''permit'' 500000]"

text \<open>
  Five records of which two count as sensitive approvals of the target \<open>0xaa\<close>: a permit
  sent by another address and two calls of the target with other methods do not.
\<close>

definition mixed_rows :: "tx list" where
  "mixed_rows =
     [transfer ''0xbb'' ''0xaa'' ''permit'' 0, transfer ''0xaa'' ''0xbb'' ''transfer'' 100000,
      transfer ''0xaa'' ''0xbb'' ''permit'' 200000, transfer ''0xaa'' ''0xbb'' ''approve'' 300000,
      transfer ''0xaa'' ''0xcc'' ''setapprovalforall'' 400000]"

text \<open>A history on which every heuristic but the dormancy rule fires.\<close>

definition busy_rows :: "tx list" where
  "busy_rows =
     [(transfer ''0x5ace...'' ''0xaa'' ''transfer'' 0)\<lparr>tx_token := ''FAKE''\<rparr>,
      transfer ''0xaa'' ''0xbb'' ''permit'' 1, transfer ''0xaa'' ''0xbb'' ''permit'' 2,
      transfer ''0xaa'' ''0xbb'' ''permit'' 3, transfer ''0xaa'' ''0xbb'' ''permit'' 4,
      transfer ''0xaa'' ''0xbb'' ''permit'' 5, transfer ''0xbb'' ''0xaa'' ''transfer'' 6,
      transfer ''0xbb'' ''0xaa'' ''transfer'' 7, transfer ''0xbb'' ''0xaa'' ''transfer'' 8]"


text \<open>Three records, the latest thirty days after the two others.\<close>

definition dormant_rows :: "tx list" where
  "dormant_rows =
     [transfer ''0xaa'' ''0xbb'' ''transfer'' 0, transfer ''0xaa'' ''0xbb'' ''transfer'' 0,
      transfer ''0xaa'' ''0xbb'' ''transfer'' 2592000]"

text \<open>Two records, hence one gap.\<close>

definition two_rows :: "tx list" where
  "two_rows =
     [transfer ''0xaa'' ''0xbb'' ''transfer'' 100, transfer ''0xbb'' ''0xaa'' ''transfer'' 200]"

text \<open>Raw records: a value that is not a number, a first alias that is 0, one that is empty.\<close>

definition text_value_row :: raw where
  "text_value_row = [''hash'' \<mapsto> PStr ''0x01'', ''from'' \<mapsto> PStr ''0xAA'', ''value'' \<mapsto> PStr ''abc'']"

definition zero_value_row :: raw where
  "zero_value_row = [''value'' \<mapsto> PInt 0, ''amount'' \<mapsto> PInt 5]"

definition empty_from_row :: raw where
  "empty_from_row = [''from'' \<mapsto> PStr '''', ''src'' \<mapsto> PStr ''0xABC'']"

text \<open>Source texts for the scanner.\<close>

definition two_patterns_code :: string where
  "two_patterns_code = ''function kill() { selfdestruct(owner); lib.DELEGATECALL(data); }''"

definition three_patterns_code :: string where
  "three_patterns_code = ''a.call.value(1)(); selfdestruct(o); b.delegatecall(d);''"

definition plain_code :: string where
  "plain_code = ''contract X { uint x; }''"

section \<open>Properties of the scorer\<close>

subsection \<open>Rounding\<close>

lemma round_half_even_int: "round_half_even (of_int n) = n"
  by (simp add: round_half_even_def)

lemma round2_of_nat: "round2 (of_nat n) = of_nat n"
proof -
  have "(of_nat n :: rat) * 100 = of_int (int n * 100)" by simp
  then have "round_half_even (of_nat n * 100) = int n * 100"
    using round_half_even_int by metis
  then show ?thesis by (simp add: round2_def)
qed

lemma round_half_even_bounds: "\<lfloor>x\<rfloor> \<le> round_half_even x \<and> round_half_even x \<le> \<lceil>x\<rceil>"
  unfolding round_half_even_def Let_def
  by (auto simp: ceiling_altdef)

lemma round2_range:
  assumes "0 \<le> x" "x \<le> 100"
  shows "0 \<le> round2 x \<and> round2 x \<le> 100"
proof -
  have lo: "0 \<le> \<lfloor>x * 100\<rfloor>" using assms by simp
  have "x * 100 \<le> of_int 10000" using assms by simp
  then have hi: "\<lceil>x * 100\<rceil> \<le> 10000" by (simp only: ceiling_le_iff)
  have "0 \<le> round_half_even (x * 100)" "round_half_even (x * 100) \<le> 10000"
    using round_half_even_bounds[of "x * 100"] lo hi by linarith+
  then show ?thesis unfolding round2_def by simp
qed

subsection \<open>The dormancy rule never fires\<close>

text \<open>
  The latest record is itself one of the records, at distance 0 from itself, so the list
  \<open>recent\<close> of a non-empty history is never empty.
\<close>

lemma recent_nonempty: "rows \<noteq> [] \<Longrightarrow> recent rows \<noteq> []"
proof -
  assume ne: "rows \<noteq> []"
  then have "last rows \<in> set rows" by simp
  moreover have "tx_time (last rows) - tx_time (last rows) < 30 * 24 * 3600" by simp
  ultimately show ?thesis unfolding recent_def filter_empty_conv by blast
qed

lemma cold_step_nonempty: "rows \<noteq> [] \<Longrightarrow> cold_step rows st = st"
  by (simp add: cold_step_def recent_nonempty split: prod.splits)

subsection \<open>The counter of pairs\<close>

lemma counter_incr_keys:
  "map fst (counter_incr k m) = (if k \<in> fst ` set m then map fst m else map fst m @ [k])"
proof (induction m)
  case Nil
  then show ?case by simp
next
  case (Cons x m)
  obtain k' c where x: "x = (k', c)" by (cases x)
  show ?case using Cons.IH by (simp add: x image_iff split: if_splits)
qed

lemma counter_incr_map_of:
  "map_of (counter_incr k m) k' =
     (if k' = k then Some (case map_of m k of None \<Rightarrow> 1 | Some c \<Rightarrow> c + 1) else map_of m k')"
  by (induction m) auto

lemma counter_fold_map_of:
  "map_of (foldl (\<lambda>m k. counter_incr k m) m ks) k =
     (case map_of m k of
        None \<Rightarrow> if k \<in> set ks then Some (count_list ks k) else None
      | Some c \<Rightarrow> Some (c + count_list ks k))"
proof (induction ks arbitrary: m)
  case Nil
  then show ?case by (simp split: option.splits)
next
  case (Cons x ks)
  show ?case
    by (simp add: Cons.IH counter_incr_map_of split: option.splits)
qed

lemma counter_get_Counter: "counter_get (Counter ks) k = count_list ks k"
  by (simp add: counter_get_def Counter_def counter_fold_map_of count_list_0_iff)

lemma Counter_snoc: "Counter (ks @ [k]) = counter_incr k (Counter ks)"
  by (simp add: Counter_def)

lemma Counter_keys_set: "fst ` set (Counter ks) = set ks"
proof (induction ks rule: rev_induct)
  case Nil
  then show ?case by (simp add: Counter_def)
next
  case (snoc k ks)
  have "set (map fst (Counter (ks @ [k]))) = set (ks @ [k])"
    unfolding Counter_snoc counter_incr_keys using snoc.IH by auto
  then show ?case by simp
qed

lemma Counter_keys_distinct: "distinct (map fst (Counter ks))"
proof (induction ks rule: rev_induct)
  case Nil
  then show ?case by (simp add: Counter_def)
next
  case (snoc k ks)
  then show ?case unfolding Counter_snoc counter_incr_keys by auto
qed

lemma Counter_item_count:
  assumes "(k, c) \<in> set (Counter ks)"
  shows "c = count_list ks k"
proof -
  have "map_of (Counter ks) k = Some c"
    using assms by (simp only: map_of_eq_Some_iff[OF Counter_keys_distinct])
  then have "counter_get (Counter ks) k = c" by (simp add: counter_get_def)
  then show ?thesis by (simp add: counter_get_Counter)
qed

lemma find_append_if:
  "find P (xs @ ys) = (case find P xs of None \<Rightarrow> find P ys | Some x \<Rightarrow> Some x)"
  by (induction xs) auto

text \<open>
  The keys come in the order of their first occurrence, so the first key with a property
  is the first element of the counted list with it.
\<close>

lemma Counter_keys_find: "find P (map fst (Counter ks)) = find P ks"
proof (induction ks rule: rev_induct)
  case Nil
  then show ?case by (simp add: Counter_def)
next
  case (snoc k ks)
  show ?case
  proof (cases "k \<in> set ks")
    case True
    then have "find P ks = None \<Longrightarrow> \<not> P k" by (auto simp: find_None_iff)
    then show ?thesis
      unfolding Counter_snoc counter_incr_keys using snoc.IH True
      by (auto simp: Counter_keys_set find_append_if split: option.splits)
  next
    case False
    then show ?thesis
      unfolding Counter_snoc counter_incr_keys using snoc.IH
      by (auto simp: Counter_keys_set find_append_if split: option.splits)
  qed
qed

subsection \<open>The wash loop stops at the first qualifying pair\<close>

lemma wash_loop_find:
  assumes "\<And>k c. (k, c) \<in> set items \<Longrightarrow> c = cnt k" and "\<And>k. counter_get pc k = cnt k"
  shows "wash_loop addr pc items st =
     (case find (\<lambda>p. case p of (a, b) \<Rightarrow> (a = addr \<or> b = addr) \<and> cnt (a, b) \<ge> 3 \<and> cnt (b, a) \<ge> 3)
             (map fst items) of
        None \<Rightarrow> st
      | Some (a, b) \<Rightarrow> (fst st + 15, snd st @ [wash_flag a b]))"
  using assms
proof (induction addr pc items st rule: wash_loop.induct)
  case (1 addr pc st)
  then show ?case by simp
next
  case (2 addr pc a b c items st)
  have c: "c = cnt (a, b)" using "2.prems"(1) by simp
  have rest: "\<And>k c. (k, c) \<in> set items \<Longrightarrow> c = cnt k" using "2.prems"(1) by simp
  show ?case
    using "2.IH"(1)[OF _ refl _ rest "2.prems"(2)] "2.IH"(2)[OF _ rest "2.prems"(2)] c "2.prems"(2)
    by (auto simp: Let_def)
qed

lemma count_list_pairs:
  "count_list (map (\<lambda>r. (tx_from r, tx_to r)) rows) (a, b) = pair_count rows a b"
  by (induction rows) (auto simp: pair_count_def)

lemma wash_step_find:
  "wash_step rows addr st =
     (case find (wash_pair rows addr) (map (\<lambda>r. (tx_from r, tx_to r)) rows) of
        None \<Rightarrow> st
      | Some (a, b) \<Rightarrow> (fst st + 15, snd st @ [wash_flag a b]))"
proof -
  let ?ks = "map (\<lambda>r. (tx_from r, tx_to r)) rows"
  have eq: "(\<lambda>p. case p of (a, b) \<Rightarrow> (a = addr \<or> b = addr) \<and> count_list ?ks (a, b) \<ge> 3
               \<and> count_list ?ks (b, a) \<ge> 3) = wash_pair rows addr"
    by (auto simp: wash_pair_def count_list_pairs fun_eq_iff)
  show ?thesis
    unfolding wash_step_def pair_counts_def
    using wash_loop_find[of "Counter ?ks" "count_list ?ks" "Counter ?ks" addr st,
        OF Counter_item_count counter_get_Counter]
    by (simp add: eq Counter_keys_find)
qed

lemma first_wash_pair_exists:
  assumes "wash_pair rows addr (a, b)"
  shows "\<exists>a' b'. first_wash_pair rows addr = Some (a', b') \<and> wash_pair rows addr (a', b')"
proof -
  have "pair_count rows a b \<ge> 3" using assms by (simp add: wash_pair_def)
  then have "filter (\<lambda>r. tx_from r = a \<and> tx_to r = b) rows \<noteq> []"
    unfolding pair_count_def by auto
  then obtain r where "r \<in> set rows" "tx_from r = a" "tx_to r = b"
    unfolding filter_empty_conv by blast
  then have "(a, b) \<in> set (map (\<lambda>r. (tx_from r, tx_to r)) rows)" by force
  then have "first_wash_pair rows addr \<noteq> None"
    unfolding first_wash_pair_def find_None_iff using assms by blast
  then obtain p where p: "first_wash_pair rows addr = Some p" by blast
  then have "wash_pair rows addr p" unfolding first_wash_pair_def find_Some_iff by blast
  then show ?thesis using p by (cases p) simp
qed

subsection \<open>Each step adds its contribution\<close>

lemma mixer_step_eq:
  "mixer_step rows addr (p, fl) = (p + of_nat (mixer_points rows addr), fl @ mixer_flags rows addr)"
  by (simp add: mixer_step_def mixer_points_def mixer_flags_def)

lemma approvals_step_eq:
  "approvals_step rows addr (p, fl) =
     (p + of_nat (approval_points (approvals rows addr)), fl @ approval_flags (approvals rows addr))"
  by (simp add: approvals_step_def approval_points_def approval_flags_def)

lemma quantiles_short: "length xs < 2 \<Longrightarrow> quantiles xs n = Inl StatisticsError"
  by (simp add: quantiles_def)

lemma burst_step_eq:
  assumes "burst_step rows (p, fl) = Inr st"
  shows "st = (p + of_nat (burst_points rows), fl @ burst_flags rows)"
proof (cases "gaps rows = []")
  case True
  then have "burst_count rows = 0" by (simp add: burst_count_def quantiles_short)
  then show ?thesis using assms True
    by (simp add: burst_step_def burst_points_def burst_flags_def)
next
  case False
  show ?thesis
  proof (cases "quantiles (gaps rows) 4")
    case (Inl e)
    then show ?thesis using assms False by (simp add: burst_step_def)
  next
    case (Inr qs)
    then have c: "burst_count rows = bursts (gaps rows) (hd qs)" by (simp add: burst_count_def)
    show ?thesis using assms False Inr
      by (simp add: burst_step_def burst_points_def burst_flags_def c Let_def split: if_splits)
  qed
qed

lemma tokens_step_eq:
  "tokens_step rows addr (p, fl) = (p + of_nat (token_points rows addr), fl @ token_flags rows addr)"
  by (simp add: tokens_step_def token_points_def token_flags_def)

lemma wash_step_eq:
  "wash_step rows addr (p, fl) = (p + of_nat (wash_points rows addr), fl @ wash_flags rows addr)"
  by (simp add: wash_step_find wash_points_def wash_flags_def first_wash_pair_def
      split: option.splits)

lemma heuristics_eq:
  assumes "rows \<noteq> []" "heuristics rows addr = Inr (p, fl)"
  shows "p = of_nat (total_points rows addr) \<and> fl = all_flags rows addr"
proof -
  obtain st where b: "burst_step rows
        (of_nat (mixer_points rows addr) + of_nat (approval_points (approvals rows addr)),
         mixer_flags rows addr @ approval_flags (approvals rows addr)) = Inr st"
    and r: "(p, fl) = cold_step rows (wash_step rows addr (tokens_step rows addr st))"
    using assms(2)
    by (auto simp: heuristics_def mixer_step_eq approvals_step_eq split: sum.splits)
  show ?thesis
    using r unfolding burst_step_eq[OF b] cold_step_nonempty[OF assms(1)] tokens_step_eq wash_step_eq
    by (simp add: total_points_def all_flags_def)
qed

lemma approval_points_cases: "approval_points c \<in> {0, 5, 10, 15, 20, 25}"
proof -
  consider "c = 0" | "c = 1" | "c = 2" | "c = 3" | "c = 4" | "c \<ge> 5" by linarith
  then show ?thesis by cases (simp_all add: approval_points_def)
qed

lemma total_points_bound: "total_points rows addr \<le> 95"
proof -
  have "mixer_points rows addr \<le> 35" by (simp add: mixer_points_def)
  moreover have "approval_points (approvals rows addr) \<le> 25"
    by (simp add: approval_points_def)
  moreover have "burst_points rows \<le> 10" by (simp add: burst_points_def)
  moreover have "token_points rows addr \<le> 10" by (simp add: token_points_def)
  moreover have "wash_points rows addr \<le> 15"
    by (simp add: wash_points_def split: option.splits)
  ultimately show ?thesis unfolding total_points_def by linarith
qed

lemma total_points_dvd: "5 dvd total_points rows addr"
proof -
  have "5 dvd mixer_points rows addr" by (simp add: mixer_points_def)
  moreover have "5 dvd approval_points (approvals rows addr)"
    using approval_points_cases[of "approvals rows addr"] by auto
  moreover have "5 dvd burst_points rows" by (simp add: burst_points_def)
  moreover have "5 dvd token_points rows addr" by (simp add: token_points_def)
  moreover have "5 dvd wash_points rows addr"
    by (simp add: wash_points_def split: option.splits)
  ultimately show ?thesis unfolding total_points_def by (intro dvd_add)
qed

text \<open>
  On a non-empty history the score is the sum of the five contributions, and the flags
  are theirs in order: the clamp and the rounding change nothing, the sum being a whole
  number of at most 95.
\<close>

lemma score_eq:
  assumes "rows \<noteq> []" "score rows addr0 = Inr (s, fl)"
  shows "s = of_nat (total_points rows (lower addr0)) \<and> fl = all_flags rows (lower addr0)"
proof -
  obtain p where h: "heuristics rows (lower addr0) = Inr (p, fl)"
    and s: "s = round2 (max 0 (min 100 p))"
    using assms by (auto simp: score_def Let_def split: sum.splits)
  have p: "p = of_nat (total_points rows (lower addr0))" and fl: "fl = all_flags rows (lower addr0)"
    using heuristics_eq[OF assms(1) h] by simp_all
  have "max 0 (min 100 p) = p"
    using total_points_bound[of rows "lower addr0"] unfolding p by (simp add: min_def max_def)
  then show ?thesis using s p fl by (simp add: round2_of_nat)
qed

lemma no_wash_flag_before:
  "filter is_wash_flag
     (mixer_flags rows addr @ approval_flags c @ burst_flags rows @ token_flags rows addr) = []"
  by (simp add: mixer_flags_def approval_flags_def burst_flags_def token_flags_def is_wash_flag_def)

lemma is_wash_flag_wash_flag: "is_wash_flag (wash_flag a b)"
  by (simp add: is_wash_flag_def wash_flag_def)

text \<open>No returned list of flags holds the cold-wallet flag.\<close>

lemma cold_flag_absent:
  assumes "score rows addr = Inr (s, flags)"
  shows "cold_flag \<notin> set flags"
proof (cases "rows = []")
  case True
  then show ?thesis using assms by (auto simp: score_def cold_flag_def)
next
  case False
  have "flags = all_flags rows (lower addr)" using score_eq[OF False assms] by simp
  then show ?thesis
    by (simp add: all_flags_def mixer_flags_def approval_flags_def burst_flags_def
        token_flags_def wash_flags_def wash_flag_def cold_flag_def split: option.splits)
qed

section \<open>The claims about the scorer\<close>

text \<open>
  C1 (dormancy adjustment). The claim: on a non-empty history whose latest record is at
  least 2,592,000 seconds after every other record, \<open>score\<close> emits the flag
  "no recent activity (cold wallet)" and subtracts 10 points, floored at 0. The code does
  not: whenever \<open>score\<close> returns on such a history, the flag is absent and the score is
  the plain sum of the five other contributions, because the latest record always counts
  as recent.
\<close>

theorem dormancy_never_applied:
  assumes "rows \<noteq> []" and "dormant rows" and "score rows addr = Inr (s, flags)"
  shows "cold_flag \<notin> set flags \<and> s = of_nat (total_points rows (lower addr))"
  using cold_flag_absent[OF assms(3)] score_eq[OF assms(1) assms(3)] by simp

theorem dormancy_never_applied_witness:
  "dormant_rows \<noteq> [] \<and> dormant dormant_rows \<and> score dormant_rows ''0xaa'' = Inr (0, [])
   \<and> cold_flag \<notin> set [] \<and> (0::rat) = of_nat (total_points dormant_rows (lower ''0xaa''))"
proof -
  have ne: "dormant_rows \<noteq> []" by (simp add: dormant_rows_def)
  have d: "dormant dormant_rows" by code_simp
  have e: "score dormant_rows ''0xaa'' = Inr (0, [])" by code_simp
  show ?thesis using dormancy_never_applied[OF ne d e] ne d e by simp
qed

text \<open>
  C2 (burst heuristic totality). The claim: \<open>score\<close> returns on every history of two
  records or more, in particular on every history of exactly two. The code does not: two
  records give one gap, the list of gaps is not empty, and the quartiles of a single data
  point raise StatisticsError, which \<open>score\<close> lets through.
\<close>

theorem score_two_records_raise:
  assumes "length rows = 2"
  shows "score rows addr = Inl StatisticsError"
proof -
  have ne: "rows \<noteq> []" using assms by auto
  have g: "length (gaps rows) = 1" using assms by (simp add: gaps_def)
  then have g': "gaps rows \<noteq> []" by auto
  have q: "quantiles (gaps rows) 4 = Inl StatisticsError" using g by (simp add: quantiles_short)
  have "burst_step rows st = Inl StatisticsError" for st
    by (cases st) (simp add: burst_step_def g' q)
  then show ?thesis using ne by (simp add: score_def heuristics_def)
qed

theorem score_two_records_raise_witness:
  "length two_rows = 2 \<and> score two_rows ''0xaa'' = Inl StatisticsError"
proof -
  have l: "length two_rows = 2" by (simp add: two_rows_def)
  show ?thesis using score_two_records_raise[OF l, of "''0xaa''"] l by simp
qed

text \<open>
  C5 (empty history). On the empty list of records and any address, \<open>score\<close> returns
  exactly 10.0 and the single flag "no history".
\<close>

theorem score_empty: "score [] addr = Inr (10, [''no history''])"
  by (simp add: score_def)

theorem score_empty_witness: "score [] ''0xAbC'' = Inr (10, [''no history''])"
  using score_empty[of "''0xAbC''"] by simp

text \<open>
  C6 (score range). Whenever \<open>score\<close> returns, the score lies between 0 and 100 and is a
  whole number of hundredths; on a non-empty history it is
  \<open>round(clamp(points, 0, 100), 2)\<close> for the points that the heuristics accumulated.
\<close>

theorem score_range:
  assumes "score rows addr = Inr (s, flags)"
  shows "0 \<le> s \<and> s \<le> 100 \<and> (\<exists>k::int. s = of_int k / 100) \<and>
         (rows \<noteq> [] \<longrightarrow>
            (\<exists>points. heuristics rows (lower addr) = Inr (points, flags)
               \<and> s = round2 (max 0 (min 100 points))))"
proof (cases "rows = []")
  case True
  then have s: "s = 10" using assms by (simp add: score_def)
  have "(10::rat) = of_int 1000 / 100" by simp
  then have "\<exists>k::int. s = of_int k / 100" unfolding s by blast
  then show ?thesis using True s by simp
next
  case False
  then obtain points where h: "heuristics rows (lower addr) = Inr (points, flags)"
    and s: "s = round2 (max 0 (min 100 points))"
    using assms by (auto simp: score_def Let_def split: sum.splits)
  have "0 \<le> max 0 (min 100 points)" "max 0 (min 100 points) \<le> 100" by simp_all
  then have r: "0 \<le> s" "s \<le> 100" using round2_range s by simp_all
  have "\<exists>k::int. s = of_int k / 100" unfolding s round2_def by blast
  then show ?thesis using r h s by blast
qed

theorem score_range_witness:
  "score busy_rows ''0xAA'' = Inr (95, [''received from known mixer: 1 txs'',
     ''sensitive approvals: 5'', ''bot-like bursts: 8'', ''received suspicious tokens: 1'',
     ''wash-like transfers between 0xaa and 0xbb''])
   \<and> busy_rows \<noteq> [] \<and> (0::rat) \<le> 95 \<and> (95::rat) \<le> 100
   \<and> (\<exists>k::int. (95::rat) = of_int k / 100)
   \<and> (\<exists>points. heuristics busy_rows (lower ''0xAA'') = Inr (points,
          [''received from known mixer: 1 txs'', ''sensitive approvals: 5'',
           ''bot-like bursts: 8'', ''received suspicious tokens: 1'',
           ''wash-like transfers between 0xaa and 0xbb''])
        \<and> (95::rat) = round2 (max 0 (min 100 points)))"
proof -
  have e: "score busy_rows ''0xAA'' = Inr (95, [''received from known mixer: 1 txs'',
     ''sensitive approvals: 5'', ''bot-like bursts: 8'', ''received suspicious tokens: 1'',
     ''wash-like transfers between 0xaa and 0xbb''])"
    by code_simp
  have ne: "busy_rows \<noteq> []" by (simp add: busy_rows_def)
  show ?thesis using score_range[OF e] e ne by blast
qed

text \<open>
  C7 (approval cap). Let \<open>count\<close> be the number of records whose \<open>from\<close> is the
  lower-cased target address and whose \<open>method\<close> holds one of the substrings "permit",
  "increaseallowance", "setapprovalforall" and "permit2". The score of a non-empty
  history is the sum of the other four contributions and of \<open>min(25, count * 5)\<close> when
  \<open>count > 0\<close> (nothing otherwise); the flags then hold "sensitive approvals: count",
  once, and no such flag when \<open>count = 0\<close>; six such records contribute 25 points, not
  30. The count is written out in the statement: a record with a sensitive method sent by
  another address, or sent by the target with another method, is not counted.
\<close>

theorem approvals_capped:
  assumes "score rows addr = Inr (s, flags)" and "rows \<noteq> []"
  defines "c \<equiv> length (filter (\<lambda>r. tx_from r = lower addr \<and>
                       (str_contains ''permit'' (tx_method r)
                        \<or> str_contains ''increaseallowance'' (tx_method r)
                        \<or> str_contains ''setapprovalforall'' (tx_method r)
                        \<or> str_contains ''permit2'' (tx_method r))) rows)"
  shows "s = of_nat (mixer_points rows (lower addr)
                 + (if c > 0 then min 25 (c * 5) else 0)
                 + burst_points rows + token_points rows (lower addr)
                 + wash_points rows (lower addr))
       \<and> filter (prefix ''sensitive approvals: '') flags
           = (if c > 0 then [''sensitive approvals: '' @ str_nat c] else [])
       \<and> (c > 0 \<longrightarrow> (''sensitive approvals: '' @ str_nat c) \<in> set flags)
       \<and> (c = 6 \<longrightarrow>
            s = of_nat (mixer_points rows (lower addr) + 25 + burst_points rows
                   + token_points rows (lower addr) + wash_points rows (lower addr)))"
proof -
  have "filter (\<lambda>r. tx_from r = lower addr
                  \<and> (\<exists>m \<in> SUS_METHODS. str_contains m (tx_method r))) rows
        = filter (\<lambda>r. tx_from r = lower addr \<and>
                       (str_contains ''permit'' (tx_method r)
                        \<or> str_contains ''increaseallowance'' (tx_method r)
                        \<or> str_contains ''setapprovalforall'' (tx_method r)
                        \<or> str_contains ''permit2'' (tx_method r))) rows"
    by (rule filter_cong) (auto simp: SUS_METHODS_def)
  then have a: "approvals rows (lower addr) = c" by (simp add: approvals_def c_def)
  have s: "s = of_nat (total_points rows (lower addr))"
    and fl: "flags = all_flags rows (lower addr)"
    using score_eq[OF assms(2) assms(1)] by simp_all
  have 1: "s = of_nat (mixer_points rows (lower addr)
                 + (if c > 0 then min 25 (c * 5) else 0)
                 + burst_points rows + token_points rows (lower addr)
                 + wash_points rows (lower addr))"
    unfolding s total_points_def approval_points_def a by simp
  have 2: "filter (prefix ''sensitive approvals: '') flags
           = (if c > 0 then [''sensitive approvals: '' @ str_nat c] else [])"
    unfolding fl all_flags_def a
    by (simp add: mixer_flags_def approval_flags_def burst_flags_def token_flags_def
        wash_flags_def wash_flag_def split: option.splits)
  have 3: "c > 0 \<Longrightarrow> (''sensitive approvals: '' @ str_nat c) \<in> set flags"
    unfolding fl all_flags_def approval_flags_def a by simp
  have 4: "c = 6 \<Longrightarrow>
            s = of_nat (mixer_points rows (lower addr) + 25 + burst_points rows
                   + token_points rows (lower addr) + wash_points rows (lower addr))"
    unfolding 1 by simp
  show ?thesis using 1 2 3 4 by blast
qed

theorem approvals_capped_witness:
  "score mixed_rows ''0xAA'' = Inr (10, [''sensitive approvals: 2'']) \<and> mixed_rows \<noteq> []
   \<and> length (filter (\<lambda>r. tx_from r = lower ''0xAA'' \<and>
                       (str_contains ''permit'' (tx_method r)
                        \<or> str_contains ''increaseallowance'' (tx_method r)
                        \<or> str_contains ''setapprovalforall'' (tx_method r)
                        \<or> str_contains ''permit2'' (tx_method r))) mixed_rows) = 2
   \<and> length (filter (\<lambda>r. str_contains ''permit'' (tx_method r)
                        \<or> str_contains ''increaseallowance'' (tx_method r)
                        \<or> str_contains ''setapprovalforall'' (tx_method r)
                        \<or> str_contains ''permit2'' (tx_method r)) mixed_rows) = 3
   \<and> length (filter (\<lambda>r. tx_from r = lower ''0xAA'') mixed_rows) = 4
   \<and> (10::rat) = of_nat (mixer_points mixed_rows (lower ''0xAA'') + min 25 (2 * 5)
                   + burst_points mixed_rows + token_points mixed_rows (lower ''0xAA'')
                   + wash_points mixed_rows (lower ''0xAA''))
   \<and> filter (prefix ''sensitive approvals: '') [''sensitive approvals: 2'']
        = [''sensitive approvals: '' @ str_nat 2]
   \<and> score permit_rows ''0xAA'' = Inr (25, [''sensitive approvals: 6'']) \<and> permit_rows \<noteq> []
   \<and> length (filter (\<lambda>r. tx_from r = lower ''0xAA'' \<and>
                       (str_contains ''permit'' (tx_method r)
                        \<or> str_contains ''increaseallowance'' (tx_method r)
                        \<or> str_contains ''setapprovalforall'' (tx_method r)
                        \<or> str_contains ''permit2'' (tx_method r))) permit_rows) = 6
   \<and> (25::rat) = of_nat (mixer_points permit_rows (lower ''0xAA'') + 25
                   + burst_points permit_rows + token_points permit_rows (lower ''0xAA'')
                   + wash_points permit_rows (lower ''0xAA''))"
proof -
  have e: "score mixed_rows ''0xAA'' = Inr (10, [''sensitive approvals: 2''])" by code_simp
  have ne: "mixed_rows \<noteq> []" by (simp add: mixed_rows_def)
  have c: "length (filter (\<lambda>r. tx_from r = lower ''0xAA'' \<and>
                       (str_contains ''permit'' (tx_method r)
                        \<or> str_contains ''increaseallowance'' (tx_method r)
                        \<or> str_contains ''setapprovalforall'' (tx_method r)
                        \<or> str_contains ''permit2'' (tx_method r))) mixed_rows) = 2"
    by code_simp
  have p: "length (filter (\<lambda>r. str_contains ''permit'' (tx_method r)
                        \<or> str_contains ''increaseallowance'' (tx_method r)
                        \<or> str_contains ''setapprovalforall'' (tx_method r)
                        \<or> str_contains ''permit2'' (tx_method r)) mixed_rows) = 3"
    by code_simp
  have f: "length (filter (\<lambda>r. tx_from r = lower ''0xAA'') mixed_rows) = 4" by code_simp
  have e': "score permit_rows ''0xAA'' = Inr (25, [''sensitive approvals: 6''])" by code_simp
  have ne': "permit_rows \<noteq> []" by (simp add: permit_rows_def)
  have c': "length (filter (\<lambda>r. tx_from r = lower ''0xAA'' \<and>
                       (str_contains ''permit'' (tx_method r)
                        \<or> str_contains ''increaseallowance'' (tx_method r)
                        \<or> str_contains ''setapprovalforall'' (tx_method r)
                        \<or> str_contains ''permit2'' (tx_method r))) permit_rows) = 6"
    by code_simp
  have z: "(0::nat) < 2" by simp
  note t = approvals_capped[OF e ne, unfolded c if_P[OF z]]
  note t' = approvals_capped[OF e' ne', unfolded c']
  have 1: "(10::rat) = of_nat (mixer_points mixed_rows (lower ''0xAA'') + min 25 (2 * 5)
                   + burst_points mixed_rows + token_points mixed_rows (lower ''0xAA'')
                   + wash_points mixed_rows (lower ''0xAA''))"
    by (rule conjunct1[OF t])
  have 2: "filter (prefix ''sensitive approvals: '') [''sensitive approvals: 2'']
        = [''sensitive approvals: '' @ str_nat 2]"
    by (rule conjunct1[OF conjunct2[OF t]])
  have 3: "(25::rat) = of_nat (mixer_points permit_rows (lower ''0xAA'') + 25
                   + burst_points permit_rows + token_points permit_rows (lower ''0xAA'')
                   + wash_points permit_rows (lower ''0xAA''))"
    by (rule mp[OF conjunct2[OF conjunct2[OF conjunct2[OF t']]] refl])
  show ?thesis by (intro conjI) (rule e ne c p f 1 2 e' ne' c' 3)+
qed

text \<open>
  C8 (wash heuristic fires once). If some pair with the target at one end occurs three
  times or more in both directions, then the wash heuristic adds exactly 15 points and
  the flags hold exactly one wash flag, which names the first such pair in the order of
  the records, however many pairs qualify.
\<close>

theorem wash_single_fire:
  assumes "score rows addr = Inr (s, flags)" and "wash_pair rows (lower addr) (a, b)"
  shows "\<exists>a' b'. first_wash_pair rows (lower addr) = Some (a', b')
           \<and> wash_pair rows (lower addr) (a', b')
           \<and> filter is_wash_flag flags = [wash_flag a' b']
           \<and> s = of_nat (mixer_points rows (lower addr)
                    + approval_points (approvals rows (lower addr))
                    + burst_points rows + token_points rows (lower addr) + 15)"
proof -
  obtain a' b' where f: "first_wash_pair rows (lower addr) = Some (a', b')"
    and w: "wash_pair rows (lower addr) (a', b')"
    using first_wash_pair_exists[OF assms(2)] by blast
  have "pair_count rows a b \<ge> 3" using assms(2) by (simp add: wash_pair_def)
  then have ne: "rows \<noteq> []" by (auto simp: pair_count_def)
  have s: "s = of_nat (total_points rows (lower addr))"
    and fl: "flags = all_flags rows (lower addr)"
    using score_eq[OF ne assms(1)] by simp_all
  have wf: "wash_flags rows (lower addr) = [wash_flag a' b']" by (simp add: wash_flags_def f)
  have "filter is_wash_flag flags =
          filter is_wash_flag
            (mixer_flags rows (lower addr) @ approval_flags (approvals rows (lower addr))
               @ burst_flags rows @ token_flags rows (lower addr))
          @ filter is_wash_flag [wash_flag a' b']"
    unfolding fl all_flags_def wf by simp
  then have 1: "filter is_wash_flag flags = [wash_flag a' b']"
    unfolding no_wash_flag_before by (simp add: is_wash_flag_wash_flag)
  have 2: "s = of_nat (mixer_points rows (lower addr)
                    + approval_points (approvals rows (lower addr))
                    + burst_points rows + token_points rows (lower addr) + 15)"
    unfolding s total_points_def by (simp add: wash_points_def f)
  show ?thesis using f w 1 2 by blast
qed

theorem wash_single_fire_witness:
  "score wash_rows ''0xAA'' = Inr (15, [''wash-like transfers between 0xaa and 0xbb''])
   \<and> wash_pair wash_rows (lower ''0xAA'') (''0xcc'', ''0xaa'')
   \<and> wash_pair wash_rows (lower ''0xAA'') (''0xaa'', ''0xbb'')
   \<and> first_wash_pair wash_rows (lower ''0xAA'') = Some (''0xaa'', ''0xbb'')
   \<and> filter is_wash_flag [''wash-like transfers between 0xaa and 0xbb'']
        = [wash_flag ''0xaa'' ''0xbb'']
   \<and> (15::rat) = of_nat (mixer_points wash_rows (lower ''0xAA'')
                   + approval_points (approvals wash_rows (lower ''0xAA''))
                   + burst_points wash_rows + token_points wash_rows (lower ''0xAA'') + 15)"
proof -
  have e: "score wash_rows ''0xAA'' = Inr (15, [''wash-like transfers between 0xaa and 0xbb''])"
    by code_simp
  have w: "wash_pair wash_rows (lower ''0xAA'') (''0xcc'', ''0xaa'')" by code_simp
  have w': "wash_pair wash_rows (lower ''0xAA'') (''0xaa'', ''0xbb'')" by code_simp
  have f: "first_wash_pair wash_rows (lower ''0xAA'') = Some (''0xaa'', ''0xbb'')" by code_simp
  show ?thesis using wash_single_fire[OF e w] e w w' f by simp
qed

text \<open>
  C10 (multiples of five). Whenever \<open>score\<close> returns, the score is 5 times a whole number
  between 0 and 19, hence at most 95 and below the upper clamp, and on a non-empty
  history it is the accumulated points themselves: the clamp and the rounding do not
  change them.
\<close>

theorem score_multiple_of_five:
  assumes "score rows addr = Inr (s, flags)"
  shows "(\<exists>k::nat. k \<le> 19 \<and> s = of_nat (5 * k)) \<and> s < 100 \<and>
         (rows \<noteq> [] \<longrightarrow> heuristics rows (lower addr) = Inr (s, flags))"
proof (cases "rows = []")
  case True
  then have s: "s = 10" using assms by (simp add: score_def)
  have "(2::nat) \<le> 19 \<and> (10::rat) = of_nat (5 * 2)" by simp
  then have "\<exists>k::nat. k \<le> 19 \<and> s = of_nat (5 * k)" unfolding s by blast
  then show ?thesis using True s by simp
next
  case False
  obtain p where h: "heuristics rows (lower addr) = Inr (p, flags)"
    using assms False by (auto simp: score_def Let_def split: sum.splits)
  have s: "s = of_nat (total_points rows (lower addr))" using score_eq[OF False assms] by simp
  have p: "p = s" using heuristics_eq[OF False h] s by simp
  obtain k where k: "total_points rows (lower addr) = 5 * k"
    using total_points_dvd[of rows "lower addr"] by (auto simp: dvd_def)
  have "k \<le> 19" using total_points_bound[of rows "lower addr"] k by simp
  then have "\<exists>k::nat. k \<le> 19 \<and> s = of_nat (5 * k)" using s k by auto
  moreover have "s < 100" using total_points_bound[of rows "lower addr"] s by simp
  ultimately show ?thesis using h p by simp
qed

theorem score_multiple_of_five_witness:
  "score busy_rows ''0xaa'' = Inr (95, [''received from known mixer: 1 txs'',
     ''sensitive approvals: 5'', ''bot-like bursts: 8'', ''received suspicious tokens: 1'',
     ''wash-like transfers between 0xaa and 0xbb''])
   \<and> busy_rows \<noteq> [] \<and> (\<exists>k::nat. k \<le> 19 \<and> (95::rat) = of_nat (5 * k)) \<and> (95::rat) < 100
   \<and> heuristics busy_rows (lower ''0xaa'') = Inr (95, [''received from known mixer: 1 txs'',
     ''sensitive approvals: 5'', ''bot-like bursts: 8'', ''received suspicious tokens: 1'',
     ''wash-like transfers between 0xaa and 0xbb''])"
proof -
  have e: "score busy_rows ''0xaa'' = Inr (95, [''received from known mixer: 1 txs'',
     ''sensitive approvals: 5'', ''bot-like bursts: 8'', ''received suspicious tokens: 1'',
     ''wash-like transfers between 0xaa and 0xbb''])"
    by code_simp
  have ne: "busy_rows \<noteq> []" by (simp add: busy_rows_def)
  show ?thesis using score_multiple_of_five[OF e] e ne by blast
qed

section \<open>Properties of the scanner\<close>

lemma analyze_loop_eq:
  "analyze_loop rs code rep =
     \<lparr>risk = risk rep + sum_list (map weight (filter (\<lambda>r. re_search (regex r) code) rs)),
      reasons = reasons rep @ map desc (filter (\<lambda>r. re_search (regex r) code) rs)\<rparr>"
  by (induction rs arbitrary: rep) (simp_all add: algebra_simps)

text \<open>
  A pattern without a dot is found exactly when its lower-cased text occurs in the
  lower-cased input.
\<close>

lemma match_here_literal:
  "CHR ''.'' \<notin> set pat \<Longrightarrow> match_here pat s = prefix (lower pat) (lower s)"
  by (induction pat s rule: match_here.induct) (auto simp: lower_def)

lemma re_search_literal:
  "CHR ''.'' \<notin> set pat \<Longrightarrow> re_search pat s = str_contains (lower pat) (lower s)"
proof (induction s)
  case Nil
  then show ?case by (cases pat) (simp_all add: lower_def)
next
  case (Cons c cs)
  then show ?case using match_here_literal[of pat "c # cs"] by (simp add: lower_def)
qed

text \<open>
  C9 (scanner: additive, in declaration order). For every input, \<open>risk\<close> is the sum of
  the weights of the rules whose pattern is found, and \<open>reasons\<close> lists their
  descriptions in the order of \<open>RULES\<close>. An input that contains "selfdestruct" and
  "delegatecall" in any case yields 65 and the two descriptions in order when the
  reentrancy pattern is not found in it (and 95 with the three descriptions when it is);
  an input in which no pattern is found yields 0 and no reason.
\<close>

theorem analyze_additive:
  "analyze code =
     \<lparr>risk = sum_list (map weight (filter (\<lambda>r. re_search (regex r) code) RULES)),
      reasons = map desc (filter (\<lambda>r. re_search (regex r) code) RULES)\<rparr>
   \<and> (str_contains ''selfdestruct'' (lower code) \<and> str_contains ''delegatecall'' (lower code)
        \<and> \<not> re_search ''call.value'' code \<longrightarrow>
      analyze code = \<lparr>risk = 65, reasons = [''Contract selfdestruct'', ''Delegatecall detected'']\<rparr>)
   \<and> (str_contains ''selfdestruct'' (lower code) \<and> str_contains ''delegatecall'' (lower code)
        \<and> re_search ''call.value'' code \<longrightarrow>
      analyze code = \<lparr>risk = 95, reasons = [''Potential reentrancy (call.value)'',
                         ''Contract selfdestruct'', ''Delegatecall detected'']\<rparr>)
   \<and> ((\<forall>r \<in> set RULES. \<not> re_search (regex r) code) \<longrightarrow>
      analyze code = \<lparr>risk = 0, reasons = []\<rparr>)"
proof -
  have g: "analyze code =
     \<lparr>risk = sum_list (map weight (filter (\<lambda>r. re_search (regex r) code) RULES)),
      reasons = map desc (filter (\<lambda>r. re_search (regex r) code) RULES)\<rparr>"
    by (simp add: analyze_def analyze_loop_eq)
  have sd: "re_search ''selfdestruct'' code = str_contains ''selfdestruct'' (lower code)"
    using re_search_literal[of "''selfdestruct''" code] by (simp add: lower_def lower_char_def)
  have dc: "re_search ''delegatecall'' code = str_contains ''delegatecall'' (lower code)"
    using re_search_literal[of "''delegatecall''" code] by (simp add: lower_def lower_char_def)
  have two: "str_contains ''selfdestruct'' (lower code) \<Longrightarrow>
      str_contains ''delegatecall'' (lower code) \<Longrightarrow> \<not> re_search ''call.value'' code \<Longrightarrow>
      analyze code = \<lparr>risk = 65, reasons = [''Contract selfdestruct'', ''Delegatecall detected'']\<rparr>"
    unfolding g by (simp add: RULES_def sd dc)
  have three: "str_contains ''selfdestruct'' (lower code) \<Longrightarrow>
      str_contains ''delegatecall'' (lower code) \<Longrightarrow> re_search ''call.value'' code \<Longrightarrow>
      analyze code = \<lparr>risk = 95, reasons = [''Potential reentrancy (call.value)'',
                         ''Contract selfdestruct'', ''Delegatecall detected'']\<rparr>"
    unfolding g by (simp add: RULES_def sd dc)
  have none: "\<forall>r \<in> set RULES. \<not> re_search (regex r) code \<Longrightarrow>
      analyze code = \<lparr>risk = 0, reasons = []\<rparr>"
    unfolding g by (simp add: filter_False)
  show ?thesis using g two three none by blast
qed

theorem analyze_additive_witness:
  "str_contains ''selfdestruct'' (lower two_patterns_code)
   \<and> str_contains ''delegatecall'' (lower two_patterns_code)
   \<and> \<not> re_search ''call.value'' two_patterns_code
   \<and> analyze two_patterns_code
       = \<lparr>risk = 65, reasons = [''Contract selfdestruct'', ''Delegatecall detected'']\<rparr>
   \<and> re_search ''call.value'' three_patterns_code
   \<and> analyze three_patterns_code
       = \<lparr>risk = 95, reasons = [''Potential reentrancy (call.value)'',
                         ''Contract selfdestruct'', ''Delegatecall detected'']\<rparr>
   \<and> list_all (\<lambda>r. \<not> re_search (regex r) plain_code) RULES
   \<and> analyze plain_code = \<lparr>risk = 0, reasons = []\<rparr>"
proof -
  have a: "str_contains ''selfdestruct'' (lower two_patterns_code)" by code_simp
  have b: "str_contains ''delegatecall'' (lower two_patterns_code)" by code_simp
  have c: "\<not> re_search ''call.value'' two_patterns_code" by code_simp
  have a': "str_contains ''selfdestruct'' (lower three_patterns_code)" by code_simp
  have b': "str_contains ''delegatecall'' (lower three_patterns_code)" by code_simp
  have c': "re_search ''call.value'' three_patterns_code" by code_simp
  have d: "list_all (\<lambda>r. \<not> re_search (regex r) plain_code) RULES" by code_simp
  then have d': "\<forall>r \<in> set RULES. \<not> re_search (regex r) plain_code" by (simp add: list_all_iff)
  show ?thesis
    using analyze_additive[of two_patterns_code] analyze_additive[of three_patterns_code]
      analyze_additive[of plain_code] a b c a' b' c' d d'
    by blast
qed

section \<open>Properties of the normalizer\<close>

lemma py_or_first_truthy2:
  "py_or (py_or (get r a) (get r b)) d = first_truthy r [a, b] d"
  by (simp add: py_or_def first_truthy_def)

lemma py_or_first_truthy3:
  "py_or (py_or (py_or (get r a) (get r b)) (get r c)) d = first_truthy r [a, b, c] d"
  by (simp add: py_or_def first_truthy_def)

text \<open>Each chain of \<open>or\<close> selects the first alias whose value is true.\<close>

lemma normalize_row_truthy: "normalize_row r = build_row (first_truthy r)"
  unfolding normalize_row_def build_row_def Let_def
  unfolding py_or_first_truthy3
  unfolding py_or_first_truthy2
  by (rule refl)

lemma normalize_rows_append:
  "normalize_rows (xs @ ys) =
     sum_bind (normalize_rows xs) (\<lambda>a. sum_bind (normalize_rows ys) (\<lambda>b. Inr (a @ b)))"
  by (induction xs) (auto simp: sum_bind_def split: sum.splits)

text \<open>
  C3 (normalizer totality). The claim: \<open>normalize\<close> never raises, and a \<open>value\<close> or
  \<open>amount\<close> that is not a number becomes 0.0. The code does not: the value goes through
  a bare \<open>float\<close>, unlike the time, which goes through \<open>to_int\<close> and its handlers. So
  wherever a record whose other fields are fine selects for its value a string that is
  not the text of a float, the whole call raises ValueError, whatever the records before
  it (if they are fine) and after it.
\<close>

theorem normalize_value_raises:
  assumes "normalize_rows before = Inr out"
    and "method_lower (first_truthy r [''from'', ''src''] (PStr '''')) = Inr f"
    and "method_lower (first_truthy r [''to'', ''dst''] (PStr '''')) = Inr t"
    and "method_lower (first_truthy r [''method'', ''functionName''] (PStr '''')) = Inr m"
    and "method_upper (first_truthy r [''tokenSymbol'', ''symbol''] (PStr '''')) = Inr k"
    and "first_truthy r [''value'', ''amount''] (PInt 0) = PStr s"
    and "parse_float (strip s) = None"
  shows "normalize_txs (before @ r # rest) addr = Inl ValueError"
proof -
  have "normalize_row r = Inl ValueError"
    unfolding normalize_row_truthy build_row_def using assms(2-7) by (simp add: sum_bind_def)
  then have "normalize_rows (r # rest) = Inl ValueError" by (simp add: sum_bind_def)
  then have "normalize_rows (before @ r # rest) = Inl ValueError"
    unfolding normalize_rows_append using assms(1) by (simp add: sum_bind_def)
  then show ?thesis by (simp add: normalize_txs_def sum_bind_def)
qed

theorem normalize_value_raises_witness:
  "normalize_rows [zero_value_row] = Inr [\<lparr>tx_hash = PStr '''', tx_from = '''', tx_to = '''',
       tx_method = '''', tx_token = '''', tx_value = Finite 5, tx_time = 0\<rparr>]
   \<and> first_truthy text_value_row [''value'', ''amount''] (PInt 0) = PStr ''abc''
   \<and> parse_float (strip ''abc'') = None
   \<and> normalize_txs ([zero_value_row] @ text_value_row # [empty_from_row]) ''0xaa'' = Inl ValueError
   \<and> normalize_txs [text_value_row] ''0xaa'' = Inl ValueError"
proof -
  have 1: "normalize_rows [zero_value_row] = Inr [\<lparr>tx_hash = PStr '''', tx_from = '''',
       tx_to = '''', tx_method = '''', tx_token = '''', tx_value = Finite 5, tx_time = 0\<rparr>]"
    by code_simp
  have 0: "normalize_rows [] = Inr []" by simp
  have 2: "method_lower (first_truthy text_value_row [''from'', ''src''] (PStr '''')) = Inr ''0xaa''"
    by code_simp
  have 3: "method_lower (first_truthy text_value_row [''to'', ''dst''] (PStr '''')) = Inr ''''"
    by code_simp
  have 4: "method_lower (first_truthy text_value_row [''method'', ''functionName''] (PStr ''''))
             = Inr ''''"
    by code_simp
  have 5: "method_upper (first_truthy text_value_row [''tokenSymbol'', ''symbol''] (PStr ''''))
             = Inr ''''"
    by code_simp
  have 6: "first_truthy text_value_row [''value'', ''amount''] (PInt 0) = PStr ''abc''"
    by code_simp
  have 7: "parse_float (strip ''abc'') = None" by code_simp
  show ?thesis
    using normalize_value_raises[OF 1 2 3 4 5 6 7, of "[empty_from_row]" "''0xaa''"]
      normalize_value_raises[OF 0 2 3 4 5 6 7, of "[]" "''0xaa''"] 1 6 7
    by simp
qed

text \<open>
  C4 (alias selection). The claim: the first alias that is present is selected, also when
  it holds 0 or the empty string. It fails on the code: with \<open>value\<close> = 0 and
  \<open>amount\<close> = 5 the canonical value is 5.0, and with \<open>from\<close> = "" and \<open>src\<close> = "0xABC"
  the canonical sender is "0xabc", where the first present alias would give 0.0 and "".
\<close>

theorem alias_first_present_counterexample:
  "normalize_txs [zero_value_row] ''0xaa'' =
     Inr [\<lparr>tx_hash = PStr '''', tx_from = '''', tx_to = '''', tx_method = '''', tx_token = '''',
           tx_value = Finite 5, tx_time = 0\<rparr>]
   \<and> first_present zero_value_row [''value'', ''amount''] (PInt 0) = PInt 0
   \<and> normalize_row zero_value_row \<noteq> build_row (first_present zero_value_row)
   \<and> normalize_txs [empty_from_row] ''0xaa'' =
     Inr [\<lparr>tx_hash = PStr '''', tx_from = ''0xabc'', tx_to = '''', tx_method = '''',
           tx_token = '''', tx_value = Finite 0, tx_time = 0\<rparr>]
   \<and> first_present empty_from_row [''from'', ''src''] (PStr '''') = PStr ''''
   \<and> normalize_row empty_from_row \<noteq> build_row (first_present empty_from_row)"
  by code_simp

text \<open>
  C4 as amended. For every raw record, each canonical field is built from the first of
  its aliases, in the listed priority, whose value is true in the sense of Python (not
  \<open>None\<close>, false, zero or empty), and from the default when there is none: an alias that
  is present but holds 0 or the empty string is passed over for the next one.
\<close>

theorem alias_first_truthy:
  "normalize_row r = build_row (first_truthy r)
   \<and> normalize_txs [r] addr = sum_bind (build_row (first_truthy r)) (\<lambda>t. Inr [t])
   \<and> (r ''value'' = Some (PInt 0) \<and> r ''amount'' = Some (PInt 5) \<and> normalize_row r = Inr t
        \<longrightarrow> tx_value t = Finite 5)
   \<and> (r ''from'' = Some (PStr '''') \<and> r ''src'' = Some (PStr s) \<and> s \<noteq> []
        \<and> normalize_row r = Inr t \<longrightarrow> tx_from t = lower s)"
proof -
  have 1: "normalize_row r = build_row (first_truthy r)" by (rule normalize_row_truthy)
  have 2: "normalize_txs [r] addr = sum_bind (build_row (first_truthy r)) (\<lambda>t. Inr [t])"
    by (simp add: normalize_txs_def sum_bind_def 1 split: sum.splits)
  have 3: "tx_value t = Finite 5"
    if "r ''value'' = Some (PInt 0)" "r ''amount'' = Some (PInt 5)" "normalize_row r = Inr t"
  proof -
    have "first_truthy r [''value'', ''amount''] (PInt 0) = PInt 5"
      using that(1,2) by (simp add: first_truthy_def get_def)
    then show ?thesis using that(3) unfolding 1 build_row_def
      by (auto simp: sum_bind_def DBL_OVERFLOW_def split: sum.splits)
  qed
  have 4: "tx_from t = lower s"
    if "r ''from'' = Some (PStr '''')" "r ''src'' = Some (PStr s)" "s \<noteq> []"
      "normalize_row r = Inr t"
  proof -
    have "first_truthy r [''from'', ''src''] (PStr '''') = PStr s"
      using that(1,2,3) by (simp add: first_truthy_def get_def)
    then show ?thesis using that(4) unfolding 1 build_row_def
      by (auto simp: sum_bind_def split: sum.splits)
  qed
  show ?thesis using 1 2 3 4 by blast
qed

theorem alias_first_truthy_witness:
  "zero_value_row ''value'' = Some (PInt 0) \<and> zero_value_row ''amount'' = Some (PInt 5)
   \<and> normalize_row zero_value_row = Inr \<lparr>tx_hash = PStr '''', tx_from = '''', tx_to = '''',
        tx_method = '''', tx_token = '''', tx_value = Finite 5, tx_time = 0\<rparr>
   \<and> tx_value \<lparr>tx_hash = PStr '''', tx_from = '''', tx_to = '''',
        tx_method = '''', tx_token = '''', tx_value = Finite 5, tx_time = 0\<rparr> = Finite 5
   \<and> normalize_row zero_value_row = build_row (first_truthy zero_value_row)
   \<and> empty_from_row ''from'' = Some (PStr '''') \<and> empty_from_row ''src'' = Some (PStr ''0xABC'')
   \<and> normalize_row empty_from_row = Inr \<lparr>tx_hash = PStr '''', tx_from = ''0xabc'', tx_to = '''',
        tx_method = '''', tx_token = '''', tx_value = Finite 0, tx_time = 0\<rparr>
   \<and> ''0xabc'' = lower ''0xABC''"
proof -
  have a: "zero_value_row ''value'' = Some (PInt 0)" "zero_value_row ''amount'' = Some (PInt 5)"
    by (simp_all add: zero_value_row_def)
  have b: "normalize_row zero_value_row = Inr \<lparr>tx_hash = PStr '''', tx_from = '''',
        tx_to = '''', tx_method = '''', tx_token = '''', tx_value = Finite 5, tx_time = 0\<rparr>"
    by code_simp
  have c: "empty_from_row ''from'' = Some (PStr '''')"
    "empty_from_row ''src'' = Some (PStr ''0xABC'')"
    by (simp_all add: empty_from_row_def)
  have d: "normalize_row empty_from_row = Inr \<lparr>tx_hash = PStr '''', tx_from = ''0xabc'',
        tx_to = '''', tx_method = '''', tx_token = '''', tx_value = Finite 0, tx_time = 0\<rparr>"
    by code_simp
  have e: "''0xABC'' \<noteq> []" by simp
  have l: "lower ''0xABC'' = ''0xabc''" by code_simp
  show ?thesis
    using alias_first_truthy[of zero_value_row "''0xaa''" _ "''0xABC''"]
      alias_first_truthy[of empty_from_row "''0xaa''" _ "''0xABC''"] a b c d e l
    by simp
qed

end
